theory Spec2Isabelle
  imports Main
begin

section \<open>Transactions store (src/app/stores/base/TransactionsStore.js)\<close>

text \<open>
  The store is a record that is passed through every method and returned updated.
  Cached-request objects have identity in the source (a bundle holds references to
  them and \<open>_getTransactions...Request\<close> hands out either an existing reference or a
  newly constructed object), so they live in an explicit heap: a reference is an index
  into \<open>heap\<close>, and \<open>new CachedRequest(m)\<close> appends to it.  Calls on collaborators
  (request \<open>invalidate\<close>/\<open>execute\<close>/\<open>reset\<close>, action triggers, the logger, the
  timer) are recorded in the order they are made in \<open>events\<close>.

  Methods whose source name starts with an underscore carry the name without it.
  Numbers are JavaScript numbers in the source.  A \<open>limit\<close> or \<open>skip\<close> that is a number
  is an integer here: the store only ever produces 5, 0 and sums of 5, which double
  arithmetic represents exactly below \<open>2^53\<close>.
\<close>

type_synonym ref = nat

datatype api_method = refreshTransactions | refreshPendingTransactions | getBalance

datatype wallet = Wallet (wallet_id: string)

text \<open>
  What a read of a \<open>limit\<close> or \<open>skip\<close> property can give: \<open>undefined\<close> when the
  object has no such property, else a number, which may be \<open>NaN\<close>.  \<open>js_plus\<close> is the
  operator \<open>+\<close> on these values (\<open>undefined\<close> converts to \<open>NaN\<close>, and a sum with
  \<open>NaN\<close> is \<open>NaN\<close>); \<open>js_less\<close> is \<open><\<close>, false as soon as one side is not a number.
\<close>

datatype js_value = Undefined | NaN | Number int

fun js_plus :: "js_value \<Rightarrow> js_value \<Rightarrow> js_value" where
  "js_plus (Number a) (Number b) = Number (a + b)"
| "js_plus _ _ = NaN"

fun js_less :: "js_value \<Rightarrow> js_value \<Rightarrow> bool" where
  "js_less (Number a) (Number b) = (a < b)"
| "js_less _ _ = False"

record search_options =
  limit :: js_value
  skip :: js_value

record request_bundle =
  walletId :: string
  pendingRequest :: ref
  recentRequest :: ref
  allRequest :: ref
  getBalanceRequest :: ref

datatype request_args =
    GetTransactionsRequest (req_walletId: string) (req_limit: js_value) (req_skip: js_value)
  | WalletIdRequest string
  | LastUpdateDate nat

text \<open>
  Modelled from the spec: the error classes of \<open>i18n/LocalizableError\<close> and the messages
  of \<open>i18n/global-messages\<close>, which are not among the sources.  A thrown value is a domain
  error (\<open>LocalizableError\<close>, carrying the key of its message), the generic
  \<open>UnexpectedError\<close>, which is a \<open>LocalizableError\<close> too, or any other value.
\<close>

datatype js_error = LocalizableError string | UnexpectedError | OtherError string

datatype localized_request = getTransactionRowsToExportRequest | exportTransactions

type_synonym export_params = string
type_synonym rows = "string list"

datatype event =
    Invalidate ref
  | Execute ref request_args
  | UpdateBalance int
  | CloseActiveDialog
  | Reset localized_request
  | ExecuteRows export_params
  | ExecuteExport rows
  | SetTimeout nat
  | LoggerError js_error

text \<open>
  \<open>active\<close> and \<open>all_wallets\<close> are the two fields of the wallets collaborator
  (\<open>stores.substores[API].wallets.active\<close> and \<open>.all\<close>) that the store reads.

  \<open>_searchOptionsForWallets\<close> is a plain object (\<open>{}\<close>) indexed by wallet id.
  \<open>searchOptionsForWallets\<close> holds the entries the store has added to it.  A read
  \<open>_searchOptionsForWallets[id]\<close> that finds no such entry goes on to the members the object
  has without any wallet: \<open>inherited\<close> gives, by name, the object found there (a function or
  a prototype, never a search-options object).  These objects are numbered; \<open>prototypes\<close>
  lists the prototype chain of each, nearest first, and \<open>memberLimit\<close> and \<open>memberSkip\<close>
  hold the \<open>limit\<close> and \<open>skip\<close> properties that have been set on them.
\<close>

record store =
  transactionsRequests :: "request_bundle list"
  searchOptionsForWallets :: "string \<rightharpoonup> search_options"
  isExporting :: bool
  exportError :: "js_error option"
  heap :: "api_method list"
  active :: "wallet option"
  all_wallets :: "wallet list"
  events :: "event list"
  inherited :: "string \<rightharpoonup> nat"
  prototypes :: "nat \<Rightarrow> nat list"
  memberLimit :: "nat \<rightharpoonup> js_value"
  memberSkip :: "nat \<rightharpoonup> js_value"

definition INITIAL_SEARCH_LIMIT :: int where
  "INITIAL_SEARCH_LIMIT = 5"

definition SEARCH_LIMIT_INCREASE :: int where
  "SEARCH_LIMIT_INCREASE = 5"

definition SEARCH_SKIP :: int where
  "SEARCH_SKIP = 0"

definition noTransactionsFound :: string where
  "noTransactionsFound = ''noTransactionsFound''"

text \<open>
  The members every plain JavaScript object inherits from \<open>Object.prototype\<close>: the
  accessor \<open>__proto__\<close>, which gives \<open>Object.prototype\<close> itself (object 0), and eleven
  functions (objects 2 to 12), whose prototype chain is \<open>Function.prototype\<close> (object 1)
  and then \<open>Object.prototype\<close>.  None of them has a \<open>limit\<close> or \<open>skip\<close> property.
\<close>

definition Object_prototype_members :: "(string \<times> nat) list" where
  "Object_prototype_members =
     [(''__proto__'', 0), (''constructor'', 2), (''hasOwnProperty'', 3),
      (''isPrototypeOf'', 4), (''propertyIsEnumerable'', 5), (''toLocaleString'', 6),
      (''toString'', 7), (''valueOf'', 8), (''__defineGetter__'', 9),
      (''__defineSetter__'', 10), (''__lookupGetter__'', 11), (''__lookupSetter__'', 12)]"

definition standard_prototypes :: "nat \<Rightarrow> nat list" where
  "standard_prototypes m = (if m = 0 then [] else if m = 1 then [0] else [1, 0])"

definition initial_store :: store where
  "initial_store =
     \<lparr>transactionsRequests = [], searchOptionsForWallets = Map.empty,
      isExporting = False, exportError = None, heap = [],
      active = None, all_wallets = [], events = [],
      inherited = map_of Object_prototype_members, prototypes = standard_prototypes,
      memberLimit = Map.empty, memberSkip = Map.empty\<rparr>"

definition emit :: "event \<Rightarrow> store \<Rightarrow> store" where
  "emit e s = s\<lparr>events := events s @ [e]\<rparr>"

definition new_CachedRequest :: "api_method \<Rightarrow> store \<Rightarrow> ref \<times> store" where
  "new_CachedRequest m s = (length (heap s), s\<lparr>heap := heap s @ [m]\<rparr>)"

text \<open>\<open>_.find(this.transactionsRequests, { walletId })\<close>: the first bundle with that id.\<close>

definition find_bundle :: "string \<Rightarrow> store \<Rightarrow> request_bundle option" where
  "find_bundle w s = find (\<lambda>b. walletId b = w) (transactionsRequests s)"

text \<open>
  The four lookups.  A stored bundle always holds four request objects, so the second
  conjunct of \<open>foundRequest && foundRequest.pendingRequest\<close> is true whenever the first
  is.
\<close>

definition getTransactionsPendingRequest :: "string \<Rightarrow> store \<Rightarrow> ref \<times> store" where
  "getTransactionsPendingRequest w s =
     (case find_bundle w s of
        Some foundRequest \<Rightarrow> (pendingRequest foundRequest, s)
      | None \<Rightarrow> new_CachedRequest refreshPendingTransactions s)"

definition getTransactionsRecentRequest :: "string \<Rightarrow> store \<Rightarrow> ref \<times> store" where
  "getTransactionsRecentRequest w s =
     (case find_bundle w s of
        Some foundRequest \<Rightarrow> (recentRequest foundRequest, s)
      | None \<Rightarrow> new_CachedRequest refreshTransactions s)"

definition getTransactionsAllRequest :: "string \<Rightarrow> store \<Rightarrow> ref \<times> store" where
  "getTransactionsAllRequest w s =
     (case find_bundle w s of
        Some foundRequest \<Rightarrow> (allRequest foundRequest, s)
      | None \<Rightarrow> new_CachedRequest refreshTransactions s)"

definition getBalanceRequest' :: "string \<Rightarrow> store \<Rightarrow> ref \<times> store" where
  "getBalanceRequest' w s =
     (case find_bundle w s of
        Some foundRequest \<Rightarrow> (getBalanceRequest foundRequest, s)
      | None \<Rightarrow> new_CachedRequest getBalance s)"

text \<open>
  The object a read \<open>_searchOptionsForWallets[id]\<close> gives: the entry the store has added
  under that id, or else the member the object has under that name, or nothing
  (\<open>undefined\<close>).  An entry is referred to by its id, a member by its number.
\<close>

datatype options_object = Entry string | Member nat

definition lookupOptions :: "store \<Rightarrow> string \<Rightarrow> options_object option" where
  "lookupOptions s w =
     (case searchOptionsForWallets s w of
        Some _ \<Rightarrow> Some (Entry w)
      | None \<Rightarrow> (case inherited s w of Some m \<Rightarrow> Some (Member m) | None \<Rightarrow> None))"

text \<open>
  Reading a property of such an object: of an entry, its field; of a member, the first
  property set along the member and its prototype chain, \<open>undefined\<close> if there is none.
  Writing \<open>limit\<close> sets the field of the entry or the member's own property.
\<close>

fun firstSet :: "(nat \<rightharpoonup> js_value) \<Rightarrow> nat list \<Rightarrow> js_value" where
  "firstSet props [] = Undefined"
| "firstSet props (m # ms) = (case props m of Some v \<Rightarrow> v | None \<Rightarrow> firstSet props ms)"

definition readLimit :: "store \<Rightarrow> options_object \<Rightarrow> js_value" where
  "readLimit s obj =
     (case obj of
        Entry w \<Rightarrow>
          (case searchOptionsForWallets s w of Some options \<Rightarrow> limit options | None \<Rightarrow> Undefined)
      | Member m \<Rightarrow> firstSet (memberLimit s) (m # prototypes s m))"

definition readSkip :: "store \<Rightarrow> options_object \<Rightarrow> js_value" where
  "readSkip s obj =
     (case obj of
        Entry w \<Rightarrow>
          (case searchOptionsForWallets s w of Some options \<Rightarrow> skip options | None \<Rightarrow> Undefined)
      | Member m \<Rightarrow> firstSet (memberSkip s) (m # prototypes s m))"

definition writeLimit :: "options_object \<Rightarrow> js_value \<Rightarrow> store \<Rightarrow> store" where
  "writeLimit obj v s =
     (case obj of
        Entry w \<Rightarrow>
          (case searchOptionsForWallets s w of
             Some options \<Rightarrow>
               s\<lparr>searchOptionsForWallets :=
                   (searchOptionsForWallets s)(w \<mapsto> options\<lparr>limit := v\<rparr>)\<rparr>
           | None \<Rightarrow> s)
      | Member m \<Rightarrow> s\<lparr>memberLimit := (memberLimit s)(m \<mapsto> v)\<rparr>)"

text \<open>
  The computed \<open>searchOptions\<close>: \<open>null\<close> without an active wallet; else the object found
  under the active wallet's id, which is truthy whether it is an entry or a member; only when
  nothing is found is an entry with the initial limit and skip added, and the object then
  found under the id returned.
\<close>

definition searchOptions :: "store \<Rightarrow> options_object option \<times> store" where
  "searchOptions s =
     (case active s of
        None \<Rightarrow> (None, s)
      | Some wallet \<Rightarrow>
          (case lookupOptions s (wallet_id wallet) of
             Some options \<Rightarrow> (Some options, s)
           | None \<Rightarrow>
               (let s1 = s\<lparr>searchOptionsForWallets :=
                             (searchOptionsForWallets s)(wallet_id wallet \<mapsto>
                                \<lparr>limit = Number INITIAL_SEARCH_LIMIT,
                                 skip = Number SEARCH_SKIP\<rparr>)\<rparr>
                in (lookupOptions s1 (wallet_id wallet), s1))))"

text \<open>
  One iteration of the loop of \<open>_refreshTransactionData\<close>, up to the registration of the
  promise chain.  The source reads \<open>this.searchOptions\<close> twice in each conditional
  expression; the second read returns what the first did (\<open>searchOptions_again\<close> below).
\<close>

definition refreshWallet :: "wallet \<Rightarrow> store \<Rightarrow> store" where
  "refreshWallet wallet s0 =
     (let (o1, s1) = searchOptions s0;
          limit' = (case o1 of Some options \<Rightarrow> readLimit s1 options
                    | None \<Rightarrow> Number INITIAL_SEARCH_LIMIT);
          (o2, s2) = searchOptions s1;
          skip' = (case o2 of Some options \<Rightarrow> readSkip s2 options
                   | None \<Rightarrow> Number SEARCH_SKIP);
          requestParams = GetTransactionsRequest (wallet_id wallet) limit' skip';
          (recentRequest', s3) = getTransactionsRecentRequest (wallet_id wallet) s2;
          s4 = emit (Invalidate recentRequest') s3;
          s5 = emit (Execute recentRequest' requestParams) s4;
          (allRequest', s6) = getTransactionsAllRequest (wallet_id wallet) s5;
          s7 = emit (Invalidate allRequest') s6
      in emit (Execute allRequest' (WalletIdRequest (wallet_id wallet))) s7)"

fun refreshLoop :: "wallet list \<Rightarrow> store \<Rightarrow> store" where
  "refreshLoop [] s = s"
| "refreshLoop (wallet # allWallets) s = refreshLoop allWallets (refreshWallet wallet s)"

definition refreshTransactionData :: "store \<Rightarrow> store" where
  "refreshTransactionData s = refreshLoop (all_wallets s) s"

text \<open>
  The promise chain on \<open>allRequest.promise\<close> runs after the action has returned, one
  callback at a time: the first callback up to its \<open>await\<close>, the rest of it once
  \<open>getTxLastUpdatedDate\<close> has resolved, and the second callback once the balance request has
  resolved.  A rejection anywhere ends the chain in the empty \<open>catch\<close>.
\<close>

definition refreshChainPending :: "wallet \<Rightarrow> store \<Rightarrow> store" where
  "refreshChainPending wallet s0 =
     (let (pendingRequest', s1) = getTransactionsPendingRequest (wallet_id wallet) s0;
          s2 = emit (Invalidate pendingRequest') s1
      in emit (Execute pendingRequest' (WalletIdRequest (wallet_id wallet))) s2)"

definition refreshChainBalance :: "wallet \<Rightarrow> nat \<Rightarrow> store \<Rightarrow> store" where
  "refreshChainBalance wallet lastUpdateDate s0 =
     (let (balanceRequest, s1) = getBalanceRequest' (wallet_id wallet) s0
      in emit (Execute balanceRequest (LastUpdateDate lastUpdateDate)) s1)"

definition refreshChainUpdateBalance :: "wallet \<Rightarrow> int \<Rightarrow> store \<Rightarrow> store" where
  "refreshChainUpdateBalance wallet updatedBalance s =
     (case active s of
        None \<Rightarrow> s
      | Some a \<Rightarrow>
          if wallet_id a = wallet_id wallet then emit (UpdateBalance updatedBalance) s else s)"

text \<open>
  \<open>updateObservedWallets\<close>.  The object literal evaluates its properties in the order
  recent, all, balance, pending; \<open>this.transactionsRequests\<close> is assigned only after the whole
  array has been mapped, so every lookup inside the map sees the previous array.
\<close>

definition makeBundle :: "string \<Rightarrow> store \<Rightarrow> request_bundle \<times> store" where
  "makeBundle w s0 =
     (let (r, s1) = getTransactionsRecentRequest w s0;
          (a, s2) = getTransactionsAllRequest w s1;
          (b, s3) = getBalanceRequest' w s2;
          (p, s4) = getTransactionsPendingRequest w s3
      in (\<lparr>walletId = w, pendingRequest = p, recentRequest = r, allRequest = a,
           getBalanceRequest = b\<rparr>, s4))"

fun mapBundles :: "string list \<Rightarrow> store \<Rightarrow> request_bundle list \<times> store" where
  "mapBundles [] s = ([], s)"
| "mapBundles (w # walletIds) s =
     (let (b, s1) = makeBundle w s;
          (bs, s2) = mapBundles walletIds s1
      in (b # bs, s2))"

definition updateObservedWallets :: "string list \<Rightarrow> store \<Rightarrow> store" where
  "updateObservedWallets walletIds s =
     (let (bs, s1) = mapBundles walletIds s
      in refreshTransactionData (s1\<lparr>transactionsRequests := bs\<rparr>))"

text \<open>
  \<open>_increaseSearchLimit\<close>: \<open>this.searchOptions.limit += SEARCH_LIMIT_INCREASE\<close> reads
  \<open>this.searchOptions\<close> again, reads \<open>limit\<close> of the object it gets, adds, and writes
  \<open>limit\<close> of that object.  The second read gives the object the first did
  (\<open>searchOptions_again\<close>), so it is not \<open>null\<close>.
\<close>

definition increaseSearchLimit :: "store \<Rightarrow> store" where
  "increaseSearchLimit s0 =
     (case searchOptions s0 of
        (None, s1) \<Rightarrow> s1
      | (Some _, s1) \<Rightarrow>
          (case searchOptions s1 of
             (Some options, s2) \<Rightarrow>
               refreshTransactionData
                 (writeLimit options
                    (js_plus (readLimit s2 options) (Number SEARCH_LIMIT_INCREASE)) s2)
           | (None, s2) \<Rightarrow> s2))"

definition bundles_for :: "string \<Rightarrow> store \<Rightarrow> request_bundle list" where
  "bundles_for w s = filter (\<lambda>b. walletId b = w) (transactionsRequests s)"

text \<open>
  The export pipeline.  A promise settles fulfilled with a value or rejected with what was
  thrown.  \<open>instanceof LocalizableError\<close> holds of a \<open>LocalizableError\<close> and of an
  \<open>UnexpectedError\<close>, and of no other thrown value.
\<close>

datatype 'a settled = Fulfilled 'a | Rejected js_error

definition instanceof_LocalizableError :: "js_error \<Rightarrow> bool" where
  "instanceof_LocalizableError e =
     (case e of LocalizableError _ \<Rightarrow> True | UnexpectedError \<Rightarrow> True | OtherError _ \<Rightarrow> False)"

definition setExporting :: "bool \<Rightarrow> store \<Rightarrow> store" where
  "setExporting b s = s\<lparr>isExporting := b\<rparr>"

definition setExportError :: "js_error option \<Rightarrow> store \<Rightarrow> store" where
  "setExportError e s = s\<lparr>exportError := e\<rparr>"

text \<open>The \<open>catch\<close> block and the \<open>finally\<close> block of \<open>_exportTransactionsToFile\<close>.\<close>

definition exportCatch :: "js_error \<Rightarrow> store \<Rightarrow> store" where
  "exportCatch error s =
     (let localizableError =
            (if \<not> instanceof_LocalizableError error then UnexpectedError else error);
          s1 = setExportError (Some localizableError) s;
          s2 = setExporting False s1
      in emit (LoggerError error) s2)"

definition exportFinally :: "store \<Rightarrow> store" where
  "exportFinally s =
     emit (Reset exportTransactions) (emit (Reset getTransactionRowsToExportRequest) s)"

text \<open>
  \<open>_exportTransactionsToFile\<close> until its promise settles.  The second argument is how
  \<open>getTransactionRowsToExportRequest.execute(params).promise\<close> settles: fulfilled with the
  rows (\<open>None\<close> is \<open>null\<close>) or rejected with what was thrown.  The second component of the
  value is the rows captured by the callback given to \<open>setTimeout\<close>, when one was
  scheduled.
\<close>

definition exportTransactionsToFile ::
  "export_params \<Rightarrow> rows option settled \<Rightarrow> store \<Rightarrow> store \<times> rows option" where
  "exportTransactionsToFile params fetched s0 =
     (let s1 = setExporting True s0;
          s2 = emit (Reset getTransactionRowsToExportRequest) s1;
          s3 = emit (Reset exportTransactions) s2;
          s4 = emit (ExecuteRows params) s3
      in case fetched of
           Rejected error \<Rightarrow> (exportFinally (exportCatch error s4), None)
         | Fulfilled None \<Rightarrow>
             (exportFinally (exportCatch (LocalizableError noTransactionsFound) s4), None)
         | Fulfilled (Some respTxRows) \<Rightarrow>
             if length respTxRows < 1
             then (exportFinally (exportCatch (LocalizableError noTransactionsFound) s4), None)
             else (exportFinally (emit (SetTimeout 800) s4), Some respTxRows))"

text \<open>
  The callback given to \<open>setTimeout\<close>, run by the timer after the function above has
  returned.  The second argument is how \<open>exportTransactions.execute(req).promise\<close> settles;
  the callback has no handler of its own, so on a rejection the two statements after the
  \<open>await\<close> do not run.
\<close>

definition exportTimerCallback :: "rows \<Rightarrow> unit settled \<Rightarrow> store \<Rightarrow> store" where
  "exportTimerCallback respTxRows exported s0 =
     (let s1 = emit (ExecuteExport respTxRows) s0
      in case exported of
           Fulfilled _ \<Rightarrow> emit CloseActiveDialog (setExporting False s1)
         | Rejected _ \<Rightarrow> s1)"

text \<open>One whole export: the function, then the timer callback if one was scheduled.\<close>

definition exportRun ::
  "export_params \<Rightarrow> rows option settled \<Rightarrow> unit settled \<Rightarrow> store \<Rightarrow> store" where
  "exportRun params fetched exported s =
     (case exportTransactionsToFile params fetched s of
        (s1, None) \<Rightarrow> s1
      | (s1, Some respTxRows) \<Rightarrow> exportTimerCallback respTxRows exported s1)"

definition closeExportTransactionDialog :: "store \<Rightarrow> store" where
  "closeExportTransactionDialog s =
     (if \<not> isExporting s
      then setExportError None (setExporting False (emit CloseActiveDialog s))
      else s)"

text \<open>
  Everything that can happen to the store: the three actions it listens to,
  \<open>updateObservedWallets\<close>, a read of the computed \<open>searchOptions\<close>, the callbacks that run
  later (promise chain of a refresh, export timer), and the wallets collaborator changing
  its active wallet or its wallet list.
\<close>

datatype operation =
    LoadMoreTransactions
  | ExportTransactionsToFile export_params "rows option settled"
  | CloseExportTransactionDialog
  | UpdateObservedWallets "string list"
  | ReadSearchOptions
  | RefreshChainPending wallet
  | RefreshChainBalance wallet nat
  | RefreshChainUpdateBalance wallet int
  | ExportTimerFired rows "unit settled"
  | SetActiveWallet "wallet option"
  | SetAllWallets "wallet list"

fun perform :: "operation \<Rightarrow> store \<Rightarrow> store" where
  "perform LoadMoreTransactions s = increaseSearchLimit s"
| "perform (ExportTransactionsToFile params fetched) s =
     fst (exportTransactionsToFile params fetched s)"
| "perform CloseExportTransactionDialog s = closeExportTransactionDialog s"
| "perform (UpdateObservedWallets walletIds) s = updateObservedWallets walletIds s"
| "perform ReadSearchOptions s = snd (searchOptions s)"
| "perform (RefreshChainPending wallet) s = refreshChainPending wallet s"
| "perform (RefreshChainBalance wallet d) s = refreshChainBalance wallet d s"
| "perform (RefreshChainUpdateBalance wallet b) s = refreshChainUpdateBalance wallet b s"
| "perform (ExportTimerFired respTxRows exported) s = exportTimerCallback respTxRows exported s"
| "perform (SetActiveWallet a) s = s\<lparr>active := a\<rparr>"
| "perform (SetAllWallets ws) s = s\<lparr>all_wallets := ws\<rparr>"

fun performAll :: "operation list \<Rightarrow> store \<Rightarrow> store" where
  "performAll [] s = s"
| "performAll (x # xs) s = performAll xs (perform x s)"

text \<open>
  The recent-request executions recorded in an event list: wallet id, limit and skip of
  every \<open>execute\<close> call made with a \<open>GetTransactionsRequest\<close>.
\<close>

fun recentExecutions :: "event list \<Rightarrow> (string \<times> js_value \<times> js_value) list" where
  "recentExecutions [] = []"
| "recentExecutions (Execute r (GetTransactionsRequest w l k) # es) =
     (w, l, k) # recentExecutions es"
| "recentExecutions (e # es) = recentExecutions es"

text \<open>
  The limit and skip of the active wallet's search options, that is of the object found
  under the active wallet's id; the initial pair when no wallet is active or nothing is found
  under the id yet.
\<close>

definition activeLimitSkip :: "store \<Rightarrow> js_value \<times> js_value" where
  "activeLimitSkip s =
     (case active s of
        None \<Rightarrow> (Number INITIAL_SEARCH_LIMIT, Number SEARCH_SKIP)
      | Some wallet \<Rightarrow>
          (case lookupOptions s (wallet_id wallet) of
             Some options \<Rightarrow> (readLimit s options, readSkip s options)
           | None \<Rightarrow> (Number INITIAL_SEARCH_LIMIT, Number SEARCH_SKIP)))"

text \<open>
  \<open>grown v v'\<close>: a limit \<open>v\<close> has become \<open>v'\<close> without decreasing, a number staying a
  number.  \<open>limits_le s t\<close>: every entry of \<open>s\<close> is still there in \<open>t\<close>, its limit grown.
\<close>

definition grown :: "js_value \<Rightarrow> js_value \<Rightarrow> bool" where
  "grown v v' =
     (case v of
        Number a \<Rightarrow> (case v' of Number b \<Rightarrow> a \<le> b | _ \<Rightarrow> False)
      | _ \<Rightarrow> (case v' of Number b \<Rightarrow> False | _ \<Rightarrow> True))"

definition limits_le :: "store \<Rightarrow> store \<Rightarrow> bool" where
  "limits_le s t =
     (\<forall>w options. searchOptionsForWallets s w = Some options \<longrightarrow>
        (\<exists>options'. searchOptionsForWallets t w = Some options'
           \<and> grown (limit options) (limit options')))"

text \<open>The four request objects a bundle holds.\<close>

definition bundle_requests :: "request_bundle \<Rightarrow> ref list" where
  "bundle_requests b = [recentRequest b, allRequest b, getBalanceRequest b, pendingRequest b]"

text \<open>Example stores.\<close>

definition exporting_store :: store where
  "exporting_store = initial_store\<lparr>isExporting := True, exportError := Some UnexpectedError\<rparr>"

definition two_wallet_store :: store where
  "two_wallet_store =
     initial_store\<lparr>active := Some (Wallet ''a''), all_wallets := [Wallet ''a'', Wallet ''b'']\<rparr>"

definition tracking_a_store :: store where
  "tracking_a_store = updateObservedWallets [''a''] two_wallet_store"

text \<open>A store whose only wallet, the active one, has the id \<open>constructor\<close>.\<close>

definition constructor_store :: store where
  "constructor_store =
     initial_store\<lparr>active := Some (Wallet ''constructor''),
                    all_wallets := [Wallet ''constructor'']\<rparr>"

text \<open>
  What a bundle made by the call holds: the request objects of the first bundle that had
  its id before the call, or four distinct objects constructed between heap sizes \<open>lo\<close> and
  \<open>hi\<close>.
\<close>

definition retained_or_new :: "store \<Rightarrow> nat \<Rightarrow> nat \<Rightarrow> request_bundle \<Rightarrow> bool" where
  "retained_or_new s lo hi b' =
     (case find_bundle (walletId b') s of
        Some b \<Rightarrow> bundle_requests b' = bundle_requests b
      | None \<Rightarrow> list_all (\<lambda>r. lo \<le> r \<and> r < hi) (bundle_requests b')
                 \<and> distinct (bundle_requests b'))"

text \<open>Every request object held by a bundle of the store exists in its heap.\<close>

definition allocated :: "store \<Rightarrow> bool" where
  "allocated s =
     list_all (\<lambda>b. list_all (\<lambda>r. r < length (heap s)) (bundle_requests b))
       (transactionsRequests s)"

definition held_requests :: "store \<Rightarrow> ref set" where
  "held_requests s = (\<Union>b \<in> set (transactionsRequests s). set (bundle_requests b))"

section \<open>Settings store (src/unnamed/part_000)\<close>

text \<open>
  Modelled from the spec: the localized-request primitive, whose class is not among the
  sources.  A request exposes \<open>result\<close> (\<open>None\<close> is \<open>null\<close>) and \<open>wasExecuted\<close>;
  \<open>execute\<close> starts the asynchronous read and hands the request back, and \<open>result\<close> and
  \<open>wasExecuted\<close> change only when that read settles, after the caller has returned.
\<close>

record request =
  result :: "string option"
  wasExecuted :: bool
  executions :: nat

definition execute :: "request \<Rightarrow> request" where
  "execute r = r\<lparr>executions := Suc (executions r)\<rparr>"

text \<open>
  The part of the settings store the computed values and the redirect reaction read.
  \<open>isLoading\<close> is \<open>stores.loading.isLoading\<close>; \<open>routes\<close> lists the routes given to
  \<open>actions.router.goToRoute.trigger\<close>.
\<close>

datatype route = LANGUAGE_SELECTION | TERMS_OF_USE | ROOT

record settings =
  getProfileLocaleRequest :: request
  getThemeRequest :: request
  getCustomThemeRequest :: request
  isLoading :: bool
  routes :: "route list"

definition hasLoadedCurrentLocale :: "settings \<Rightarrow> bool" where
  "hasLoadedCurrentLocale s =
     (wasExecuted (getProfileLocaleRequest s) \<and> result (getProfileLocaleRequest s) \<noteq> None)"

definition isCurrentLocaleSet :: "settings \<Rightarrow> bool" where
  "isCurrentLocaleSet s =
     (result (getProfileLocaleRequest s) \<noteq> None \<and> result (getProfileLocaleRequest s) \<noteq> Some '''')"

definition isCurrentThemeSet :: "settings \<Rightarrow> bool" where
  "isCurrentThemeSet s =
     (result (getThemeRequest s) \<noteq> None \<and> result (getThemeRequest s) \<noteq> Some '''')"

text \<open>
  The computed values return the value read and the store after the \<open>execute\<close> call they
  make.
\<close>

definition currentLocale :: "settings \<Rightarrow> string option \<times> settings" where
  "currentLocale s0 =
     (let r = execute (getProfileLocaleRequest s0);
          s1 = s0\<lparr>getProfileLocaleRequest := r\<rparr>;
          result' = result r
      in if isCurrentLocaleSet s1 then (result', s1) else (Some ''en-US'', s1))"

text \<open>
  \<open>THEMES.YOROI_CLASSIC\<close> is declared in \<open>themes/index\<close>, which is not among the
  sources; it is the first parameter of the definitions that use it.
\<close>

definition currentTheme :: "string \<Rightarrow> settings \<Rightarrow> string option \<times> settings" where
  "currentTheme YOROI_CLASSIC s0 =
     (let r = execute (getThemeRequest s0);
          s1 = s0\<lparr>getThemeRequest := r\<rparr>;
          result' = result r
      in if isCurrentThemeSet s1 then (result', s1) else (Some YOROI_CLASSIC, s1))"

text \<open>
  \<open>getThemeVars\<close> loads a prebuilt module; the model returns the path it requires.
  \<open>if (theme)\<close> is false for \<open>null\<close> and for the empty string.
\<close>

datatype json = JNull | JOther string

datatype theme_vars = Parsed json | SyntaxError | Prebuilt string

definition getThemeVars :: "string \<Rightarrow> string option \<Rightarrow> theme_vars" where
  "getThemeVars YOROI_CLASSIC theme =
     (case theme of
        Some t \<Rightarrow>
          if t \<noteq> '''' then Prebuilt (''../../themes/prebuilt/'' @ t @ ''.js'')
          else Prebuilt (''../../themes/prebuilt/'' @ YOROI_CLASSIC @ ''.js'')
      | None \<Rightarrow> Prebuilt (''../../themes/prebuilt/'' @ YOROI_CLASSIC @ ''.js''))"

text \<open>
  \<open>JSON.parse\<close> converts its argument to a string first, \<open>null\<close> to the text \<open>null\<close>, and
  parses that text.  The parser of texts is a parameter: \<open>parse\<close> gives the parsed value
  or \<open>None\<close> where \<open>JSON.parse\<close> throws a \<open>SyntaxError\<close>.
\<close>

definition JSON_parse :: "(string \<Rightarrow> json option) \<Rightarrow> string option \<Rightarrow> theme_vars" where
  "JSON_parse parse v =
     (case parse (case v of None \<Rightarrow> ''null'' | Some text \<Rightarrow> text) of
        Some j \<Rightarrow> Parsed j
      | None \<Rightarrow> SyntaxError)"

text \<open>A parser of texts that knows the literal \<open>null\<close> and treats every other text as opaque.\<close>

definition parse_literal :: "string \<Rightarrow> json option" where
  "parse_literal text = (if text = ''null'' then Some JNull else Some (JOther text))"

definition currentThemeVars ::
  "(string \<Rightarrow> json option) \<Rightarrow> string \<Rightarrow> settings \<Rightarrow> theme_vars \<times> settings" where
  "currentThemeVars parse YOROI_CLASSIC s0 =
     (let r = execute (getCustomThemeRequest s0);
          s1 = s0\<lparr>getCustomThemeRequest := r\<rparr>;
          result' = result r
      in if result' \<noteq> Some '''' then (JSON_parse parse result', s1)
         else (let (theme, s2) = currentTheme YOROI_CLASSIC s1
               in (getThemeVars YOROI_CLASSIC theme, s2)))"

definition redirectToLanguageSelectionIfNoLocaleSet :: "settings \<Rightarrow> settings" where
  "redirectToLanguageSelectionIfNoLocaleSet s =
     (if \<not> isLoading s \<and> hasLoadedCurrentLocale s \<and> \<not> isCurrentLocaleSet s
      then s\<lparr>routes := routes s @ [LANGUAGE_SELECTION]\<rparr>
      else s)"

definition initial_request :: request where
  "initial_request = \<lparr>result = None, wasExecuted = False, executions = 0\<rparr>"

definition initial_settings :: settings where
  "initial_settings =
     \<lparr>getProfileLocaleRequest = initial_request, getThemeRequest = initial_request,
      getCustomThemeRequest = initial_request, isLoading = False, routes = []\<rparr>"

text \<open>Example states of the settings store.\<close>

definition loading_unset_settings :: settings where
  "loading_unset_settings =
     initial_settings
       \<lparr>getProfileLocaleRequest := \<lparr>result = Some '''', wasExecuted = True, executions = 1\<rparr>,
        isLoading := True\<rparr>"

definition loaded_unset_settings :: settings where
  "loaded_unset_settings = loading_unset_settings\<lparr>isLoading := False\<rparr>"

section \<open>Properties of the transactions store\<close>

lemma emit_transactionsRequests [simp]:
  "transactionsRequests (emit e s) = transactionsRequests s"
  by (simp add: emit_def)

lemma new_CachedRequest_transactionsRequests [simp]:
  "transactionsRequests (snd (new_CachedRequest m s)) = transactionsRequests s"
  by (simp add: new_CachedRequest_def)

lemma find_bundle_cong:
  "transactionsRequests s = transactionsRequests t \<Longrightarrow> find_bundle w s = find_bundle w t"
  by (simp add: find_bundle_def)

lemma getTransactionsPendingRequest_transactionsRequests [simp]:
  "transactionsRequests (snd (getTransactionsPendingRequest w s)) = transactionsRequests s"
  by (simp add: getTransactionsPendingRequest_def split: option.splits)

lemma getTransactionsRecentRequest_transactionsRequests [simp]:
  "transactionsRequests (snd (getTransactionsRecentRequest w s)) = transactionsRequests s"
  by (simp add: getTransactionsRecentRequest_def split: option.splits)

lemma getTransactionsAllRequest_transactionsRequests [simp]:
  "transactionsRequests (snd (getTransactionsAllRequest w s)) = transactionsRequests s"
  by (simp add: getTransactionsAllRequest_def split: option.splits)

lemma getBalanceRequest'_transactionsRequests [simp]:
  "transactionsRequests (snd (getBalanceRequest' w s)) = transactionsRequests s"
  by (simp add: getBalanceRequest'_def split: option.splits)

lemma searchOptions_transactionsRequests [simp]:
  "transactionsRequests (snd (searchOptions s)) = transactionsRequests s"
  by (simp add: searchOptions_def Let_def split: option.splits)

lemma refreshWallet_transactionsRequests [simp]:
  "transactionsRequests (refreshWallet wallet s) = transactionsRequests s"
  by (simp add: refreshWallet_def Let_def split_beta)

lemma refreshLoop_transactionsRequests [simp]:
  "transactionsRequests (refreshLoop ws s) = transactionsRequests s"
  by (induction ws arbitrary: s) simp_all

lemma refreshTransactionData_transactionsRequests [simp]:
  "transactionsRequests (refreshTransactionData s) = transactionsRequests s"
  by (simp add: refreshTransactionData_def)

lemma makeBundle_walletId [simp]: "walletId (fst (makeBundle w s)) = w"
  by (simp add: makeBundle_def Let_def split_beta)

lemma mapBundles_walletIds: "map walletId (fst (mapBundles ws s)) = ws"
  by (induction ws arbitrary: s) (simp_all add: Let_def split_beta)

lemma updateObservedWallets_transactionsRequests:
  "transactionsRequests (updateObservedWallets ws s) = fst (mapBundles ws s)"
  by (simp add: updateObservedWallets_def split_beta)

lemma length_filter_map_eq:
  "length (filter (\<lambda>b. f b = w) bs) = count_list (map f bs) w"
  by (induction bs) simp_all

subsection \<open>Claim C1: the tracked ids after updateObservedWallets\<close>

text \<open>
  C1, as amended.  After \<open>updateObservedWallets W\<close> the \<open>walletId\<close> fields of
  \<open>transactionsRequests\<close>, read in order, are the list \<open>W\<close> itself.  So the set of
  tracked ids is the set of \<open>W\<close>, no bundle exists for an id outside \<open>W\<close>, and an id has
  as many bundles as it has occurrences in \<open>W\<close>: exactly one when \<open>W\<close> lists it once.
\<close>

theorem updateObservedWallets_ids:
  "map walletId (transactionsRequests (updateObservedWallets W s)) = W
   \<and> walletId ` set (transactionsRequests (updateObservedWallets W s)) = set W
   \<and> (\<forall>w. length (bundles_for w (updateObservedWallets W s)) = count_list W w)"
proof -
  have ids: "map walletId (transactionsRequests (updateObservedWallets W s)) = W"
    by (simp add: updateObservedWallets_transactionsRequests mapBundles_walletIds)
  have "set (map walletId (transactionsRequests (updateObservedWallets W s))) = set W"
    by (simp only: ids)
  then have img: "walletId ` set (transactionsRequests (updateObservedWallets W s)) = set W"
    by simp
  have cnt: "length (bundles_for w (updateObservedWallets W s)) = count_list W w" for w
    unfolding bundles_for_def length_filter_map_eq by (simp only: ids)
  from ids img cnt show ?thesis by blast
qed

text \<open>
  C1 as stated fails on a list that names an id twice: the id is in \<open>W\<close> and has two
  bundles, not exactly one.
\<close>

theorem updateObservedWallets_duplicate_id:
  "''a'' \<in> set [''a'', ''a'']
   \<and> length (bundles_for ''a'' (updateObservedWallets [''a'', ''a''] initial_store)) = 2"
  by (simp add: bundles_for_def updateObservedWallets_def makeBundle_def
      getTransactionsRecentRequest_def getTransactionsAllRequest_def getBalanceRequest'_def
      getTransactionsPendingRequest_def find_bundle_def new_CachedRequest_def
      refreshTransactionData_def initial_store_def Let_def)

lemmas export_defs = exportTransactionsToFile_def exportCatch_def exportFinally_def
  setExporting_def setExportError_def emit_def instanceof_LocalizableError_def Let_def

subsection \<open>Claim C2: the two failures of the row fetch\<close>

text \<open>
  C2.  When the row fetch is fulfilled with \<open>null\<close> or with zero rows, the stored
  \<open>exportError\<close> is the "no transactions found" domain error; when it is rejected with an
  error that is not a \<open>LocalizableError\<close>, the stored \<open>exportError\<close> is the generic
  \<open>UnexpectedError\<close>.  In both cases \<open>isExporting\<close> is false when the call has settled,
  and no timer callback was scheduled that could change it afterwards.
\<close>

theorem exportTransactionsToFile_failures:
  assumes "respTxRows = None \<or> respTxRows = Some []"
    and "\<not> instanceof_LocalizableError error"
  shows "exportError (fst (exportTransactionsToFile params (Fulfilled respTxRows) s))
           = Some (LocalizableError noTransactionsFound)
       \<and> \<not> isExporting (fst (exportTransactionsToFile params (Fulfilled respTxRows) s))
       \<and> snd (exportTransactionsToFile params (Fulfilled respTxRows) s) = None
       \<and> exportError (fst (exportTransactionsToFile params (Rejected error) s))
           = Some UnexpectedError
       \<and> \<not> isExporting (fst (exportTransactionsToFile params (Rejected error) s))
       \<and> snd (exportTransactionsToFile params (Rejected error) s) = None"
  using assms by (auto simp: export_defs)

theorem exportTransactionsToFile_failures_witness:
  "((None :: rows option) = None \<or> (None :: rows option) = Some [])
   \<and> \<not> instanceof_LocalizableError (OtherError ''boom'')
   \<and> exportError (fst (exportTransactionsToFile ''p'' (Fulfilled None) initial_store))
        = Some (LocalizableError noTransactionsFound)
   \<and> \<not> isExporting (fst (exportTransactionsToFile ''p'' (Fulfilled None) initial_store))
   \<and> exportError (fst (exportTransactionsToFile ''p'' (Rejected (OtherError ''boom'')) initial_store))
        = Some UnexpectedError
   \<and> \<not> isExporting (fst (exportTransactionsToFile ''p'' (Rejected (OtherError ''boom'')) initial_store))"
  using exportTransactionsToFile_failures [of None "OtherError ''boom''" "''p''" initial_store]
  by (simp add: instanceof_LocalizableError_def)

subsection \<open>Claim C3: leaving the exporting state\<close>

text \<open>
  C3 says that every run ends with \<open>isExporting\<close> false and every failure stored in
  \<open>exportError\<close>.  The run below fetches one row, so the file export is scheduled, and the
  delayed \<open>exportTransactions.execute(req).promise\<close> is rejected.  The rejection happens
  in the timer callback, outside the \<open>try\<close> of \<open>_exportTransactionsToFile\<close>: the run
  ends with \<open>isExporting\<close> still true and with no \<open>exportError\<close>.
\<close>

theorem exportRun_delayed_rejection:
  "isExporting (exportRun ''p'' (Fulfilled (Some [''row''])) (Rejected (OtherError ''disk'')) initial_store)
   \<and> exportError (exportRun ''p'' (Fulfilled (Some [''row''])) (Rejected (OtherError ''disk'')) initial_store) = None"
  by (simp add: exportRun_def exportTimerCallback_def export_defs initial_store_def)

subsection \<open>Claim C8: closing the export dialog while exporting\<close>

text \<open>
  C8.  In every state with \<open>isExporting\<close> true, \<open>closeExportTransactionDialog\<close> returns the
  store as it was: no close-dialog trigger is recorded, \<open>isExporting\<close> and \<open>exportError\<close>
  keep their values.
\<close>

theorem closeExportTransactionDialog_while_exporting:
  "isExporting s \<Longrightarrow> closeExportTransactionDialog s = s"
  by (simp add: closeExportTransactionDialog_def)

theorem closeExportTransactionDialog_while_exporting_witness:
  "isExporting exporting_store
   \<and> closeExportTransactionDialog exporting_store = exporting_store
   \<and> exportError (closeExportTransactionDialog exporting_store) = Some UnexpectedError
   \<and> events (closeExportTransactionDialog exporting_store) = []"
  using closeExportTransactionDialog_while_exporting [of exporting_store]
  by (simp add: exporting_store_def initial_store_def)

subsection \<open>Frame lemmas\<close>

lemma emit_frame [simp]:
  "searchOptionsForWallets (emit e s) = searchOptionsForWallets s"
  "active (emit e s) = active s"
  "all_wallets (emit e s) = all_wallets s"
  "heap (emit e s) = heap s"
  "events (emit e s) = events s @ [e]"
  "inherited (emit e s) = inherited s"
  "prototypes (emit e s) = prototypes s"
  "memberLimit (emit e s) = memberLimit s"
  "memberSkip (emit e s) = memberSkip s"
  by (simp_all add: emit_def)

lemma getTransactionsRecentRequest_frame [simp]:
  "searchOptionsForWallets (snd (getTransactionsRecentRequest w s)) = searchOptionsForWallets s"
  "active (snd (getTransactionsRecentRequest w s)) = active s"
  "all_wallets (snd (getTransactionsRecentRequest w s)) = all_wallets s"
  "events (snd (getTransactionsRecentRequest w s)) = events s"
  "inherited (snd (getTransactionsRecentRequest w s)) = inherited s"
  "prototypes (snd (getTransactionsRecentRequest w s)) = prototypes s"
  "memberLimit (snd (getTransactionsRecentRequest w s)) = memberLimit s"
  "memberSkip (snd (getTransactionsRecentRequest w s)) = memberSkip s"
  by (simp_all add: getTransactionsRecentRequest_def new_CachedRequest_def split: option.splits)

lemma getTransactionsAllRequest_frame [simp]:
  "searchOptionsForWallets (snd (getTransactionsAllRequest w s)) = searchOptionsForWallets s"
  "active (snd (getTransactionsAllRequest w s)) = active s"
  "all_wallets (snd (getTransactionsAllRequest w s)) = all_wallets s"
  "events (snd (getTransactionsAllRequest w s)) = events s"
  "inherited (snd (getTransactionsAllRequest w s)) = inherited s"
  "prototypes (snd (getTransactionsAllRequest w s)) = prototypes s"
  "memberLimit (snd (getTransactionsAllRequest w s)) = memberLimit s"
  "memberSkip (snd (getTransactionsAllRequest w s)) = memberSkip s"
  by (simp_all add: getTransactionsAllRequest_def new_CachedRequest_def split: option.splits)

lemma getTransactionsPendingRequest_frame [simp]:
  "searchOptionsForWallets (snd (getTransactionsPendingRequest w s)) = searchOptionsForWallets s"
  "active (snd (getTransactionsPendingRequest w s)) = active s"
  "all_wallets (snd (getTransactionsPendingRequest w s)) = all_wallets s"
  "events (snd (getTransactionsPendingRequest w s)) = events s"
  by (simp_all add: getTransactionsPendingRequest_def new_CachedRequest_def split: option.splits)

lemma getBalanceRequest'_frame [simp]:
  "searchOptionsForWallets (snd (getBalanceRequest' w s)) = searchOptionsForWallets s"
  "active (snd (getBalanceRequest' w s)) = active s"
  "all_wallets (snd (getBalanceRequest' w s)) = all_wallets s"
  "events (snd (getBalanceRequest' w s)) = events s"
  by (simp_all add: getBalanceRequest'_def new_CachedRequest_def split: option.splits)

lemma searchOptions_frame [simp]:
  "active (snd (searchOptions s)) = active s"
  "all_wallets (snd (searchOptions s)) = all_wallets s"
  "events (snd (searchOptions s)) = events s"
  "heap (snd (searchOptions s)) = heap s"
  "inherited (snd (searchOptions s)) = inherited s"
  "prototypes (snd (searchOptions s)) = prototypes s"
  "memberLimit (snd (searchOptions s)) = memberLimit s"
  "memberSkip (snd (searchOptions s)) = memberSkip s"
  by (simp_all add: searchOptions_def Let_def split: option.splits)

text \<open>The values of two stores that agree on what a lookup and a read depend on.\<close>

lemma lookup_read_cong:
  assumes "searchOptionsForWallets t = searchOptionsForWallets s" "inherited t = inherited s"
    "prototypes t = prototypes s" "memberLimit t = memberLimit s" "memberSkip t = memberSkip s"
  shows "lookupOptions t w = lookupOptions s w" "readLimit t obj = readLimit s obj"
    "readSkip t obj = readSkip s obj"
  by (simp_all add: lookupOptions_def readLimit_def readSkip_def assms
      cong: option.case_cong options_object.case_cong)

lemma activeLimitSkip_cong:
  assumes "active t = active s"
    "searchOptionsForWallets t = searchOptionsForWallets s" "inherited t = inherited s"
    "prototypes t = prototypes s" "memberLimit t = memberLimit s" "memberSkip t = memberSkip s"
  shows "activeLimitSkip t = activeLimitSkip s"
  by (simp add: activeLimitSkip_def assms(1) lookup_read_cong [OF assms(2-6)]
      cong: option.case_cong)

text \<open>The getter: what it returns, what a read after it gives, and a second read.\<close>

lemma searchOptions_None: "active s = None \<Longrightarrow> searchOptions s = (None, s)"
  by (simp add: searchOptions_def)

lemma searchOptions_found:
  "active s = Some wallet \<Longrightarrow> lookupOptions s (wallet_id wallet) = Some obj
     \<Longrightarrow> searchOptions s = (Some obj, s)"
  by (simp add: searchOptions_def)

lemma searchOptions_created:
  "active s = Some wallet \<Longrightarrow> lookupOptions s (wallet_id wallet) = None
     \<Longrightarrow> searchOptions s =
          (Some (Entry (wallet_id wallet)),
           s\<lparr>searchOptionsForWallets :=
               (searchOptionsForWallets s)(wallet_id wallet \<mapsto>
                  \<lparr>limit = Number INITIAL_SEARCH_LIMIT, skip = Number SEARCH_SKIP\<rparr>)\<rparr>)"
  by (simp add: searchOptions_def lookupOptions_def Let_def)

lemma searchOptions_again:
  "searchOptions (snd (searchOptions s)) = (fst (searchOptions s), snd (searchOptions s))"
  by (simp add: searchOptions_def lookupOptions_def Let_def split: option.splits)

lemma searchOptions_is_None: "(fst (searchOptions s) = None) = (active s = None)"
  by (simp add: searchOptions_def lookupOptions_def Let_def split: option.splits)

lemma searchOptions_limit:
  "(case fst (searchOptions s) of
      Some options \<Rightarrow> readLimit (snd (searchOptions s)) options
    | None \<Rightarrow> Number INITIAL_SEARCH_LIMIT) = fst (activeLimitSkip s)"
  by (simp add: searchOptions_def activeLimitSkip_def lookupOptions_def readLimit_def Let_def
      split: option.splits)

lemma searchOptions_skip:
  "(case fst (searchOptions s) of
      Some options \<Rightarrow> readSkip (snd (searchOptions s)) options
    | None \<Rightarrow> Number SEARCH_SKIP) = snd (activeLimitSkip s)"
  by (simp add: searchOptions_def activeLimitSkip_def lookupOptions_def readSkip_def Let_def
      split: option.splits)

lemma activeLimitSkip_searchOptions [simp]:
  "activeLimitSkip (snd (searchOptions s)) = activeLimitSkip s"
  by (simp add: searchOptions_def activeLimitSkip_def lookupOptions_def readLimit_def
      readSkip_def Let_def split: option.splits)


lemma writeLimit_frame [simp]:
  "active (writeLimit obj v s) = active s"
  "all_wallets (writeLimit obj v s) = all_wallets s"
  "events (writeLimit obj v s) = events s"
  "heap (writeLimit obj v s) = heap s"
  "transactionsRequests (writeLimit obj v s) = transactionsRequests s"
  "inherited (writeLimit obj v s) = inherited s"
  "prototypes (writeLimit obj v s) = prototypes s"
  "memberSkip (writeLimit obj v s) = memberSkip s"
  by (simp_all add: writeLimit_def split: options_object.splits option.splits)

text \<open>One iteration of the refresh loop.\<close>

lemma refreshWallet_frame [simp]:
  "active (refreshWallet wallet s) = active s"
  "all_wallets (refreshWallet wallet s) = all_wallets s"
  "inherited (refreshWallet wallet s) = inherited s"
  "prototypes (refreshWallet wallet s) = prototypes s"
  "memberLimit (refreshWallet wallet s) = memberLimit s"
  "memberSkip (refreshWallet wallet s) = memberSkip s"
  "searchOptionsForWallets (refreshWallet wallet s) = searchOptionsForWallets (snd (searchOptions s))"
  by (simp_all add: refreshWallet_def Let_def split_beta searchOptions_again)

lemma refreshWallet_activeLimitSkip [simp]:
  "activeLimitSkip (refreshWallet wallet s) = activeLimitSkip s"
proof -
  have "activeLimitSkip (refreshWallet wallet s) = activeLimitSkip (snd (searchOptions s))"
    by (rule activeLimitSkip_cong) simp_all
  then show ?thesis by simp
qed

lemma recentExecutions_append:
  "recentExecutions (es @ fs) = recentExecutions es @ recentExecutions fs"
  by (induction es rule: recentExecutions.induct) simp_all

lemma refreshWallet_recentExecutions:
  "recentExecutions (events (refreshWallet wallet s)) =
     recentExecutions (events s)
       @ [(wallet_id wallet, fst (activeLimitSkip s), snd (activeLimitSkip s))]"
proof -
  have skip': "(case fst (searchOptions (snd (searchOptions s))) of
          Some options \<Rightarrow> readSkip (snd (searchOptions (snd (searchOptions s)))) options
        | None \<Rightarrow> Number SEARCH_SKIP) = snd (activeLimitSkip s)"
    using searchOptions_skip [of "snd (searchOptions s)"] by simp
  show ?thesis
    by (simp add: refreshWallet_def Let_def split_beta recentExecutions_append
        searchOptions_limit skip')
qed

lemma refreshLoop_frame [simp]:
  "active (refreshLoop ws s) = active s"
  "all_wallets (refreshLoop ws s) = all_wallets s"
  "inherited (refreshLoop ws s) = inherited s"
  "prototypes (refreshLoop ws s) = prototypes s"
  "memberLimit (refreshLoop ws s) = memberLimit s"
  "memberSkip (refreshLoop ws s) = memberSkip s"
  by (induction ws arbitrary: s) simp_all

lemma refreshLoop_activeLimitSkip [simp]:
  "activeLimitSkip (refreshLoop ws s) = activeLimitSkip s"
  by (induction ws arbitrary: s) simp_all

lemma refreshLoop_recentExecutions:
  "recentExecutions (events (refreshLoop ws s)) =
     recentExecutions (events s)
       @ map (\<lambda>wallet. (wallet_id wallet, fst (activeLimitSkip s), snd (activeLimitSkip s))) ws"
  by (induction ws arbitrary: s) (simp_all add: refreshWallet_recentExecutions)

lemma refreshTransactionData_frame [simp]:
  "active (refreshTransactionData s) = active s"
  "all_wallets (refreshTransactionData s) = all_wallets s"
  "inherited (refreshTransactionData s) = inherited s"
  "prototypes (refreshTransactionData s) = prototypes s"
  "memberLimit (refreshTransactionData s) = memberLimit s"
  "memberSkip (refreshTransactionData s) = memberSkip s"
  "activeLimitSkip (refreshTransactionData s) = activeLimitSkip s"
  by (simp_all add: refreshTransactionData_def)

subsection \<open>Claim C9: one limit and skip for every wallet of a refresh\<close>


text \<open>The entries after a refresh: those the first read of the getter leaves.\<close>

lemma searchOptions_entries_cong:
  "active t = active s \<Longrightarrow> searchOptionsForWallets t = searchOptionsForWallets s
     \<Longrightarrow> inherited t = inherited s
     \<Longrightarrow> searchOptionsForWallets (snd (searchOptions t))
           = searchOptionsForWallets (snd (searchOptions s))"
  by (simp add: searchOptions_def lookupOptions_def Let_def split: option.splits)

lemma refreshLoop_entries:
  "searchOptionsForWallets (refreshLoop ws s) =
     (if ws = [] then searchOptionsForWallets s
      else searchOptionsForWallets (snd (searchOptions s)))"
proof (induction ws arbitrary: s)
  case Nil
  show ?case by simp
next
  case (Cons w ws)
  have "searchOptionsForWallets (snd (searchOptions (refreshWallet w s)))
          = searchOptionsForWallets (snd (searchOptions (snd (searchOptions s))))"
    by (rule searchOptions_entries_cong) simp_all
  also have "\<dots> = searchOptionsForWallets (snd (searchOptions s))"
    by (simp add: searchOptions_again)
  finally show ?case by (simp add: Cons.IH)
qed

text \<open>\<open>_increaseSearchLimit\<close> in one piece.\<close>

lemma increaseSearchLimit_unfold:
  "increaseSearchLimit s =
     (case fst (searchOptions s) of
        None \<Rightarrow> snd (searchOptions s)
      | Some options \<Rightarrow>
          refreshTransactionData
            (writeLimit options
               (js_plus (readLimit (snd (searchOptions s)) options)
                  (Number SEARCH_LIMIT_INCREASE))
               (snd (searchOptions s))))"
  by (simp add: increaseSearchLimit_def split_beta searchOptions_again split: option.splits)

lemma increaseSearchLimit_no_active:
  "active s = None \<Longrightarrow> increaseSearchLimit s = s"
  by (simp add: increaseSearchLimit_unfold searchOptions_None)

lemma increaseSearchLimit_frame [simp]:
  "active (increaseSearchLimit s) = active s"
  "all_wallets (increaseSearchLimit s) = all_wallets s"
  "transactionsRequests (increaseSearchLimit s) = transactionsRequests s"
  by (simp_all add: increaseSearchLimit_unfold split: option.splits)

text \<open>
  With an active wallet under whose id the object has no member of its own, the call
  leaves that wallet's entry with its limit plus \<open>SEARCH_LIMIT_INCREASE\<close> and its skip.
\<close>

lemma searchOptions_own:
  assumes "active s = Some wallet" and "inherited s (wallet_id wallet) = None"
  shows "fst (searchOptions s) = Some (Entry (wallet_id wallet))"
    and "searchOptionsForWallets (snd (searchOptions s)) (wallet_id wallet) =
           Some \<lparr>limit = fst (activeLimitSkip s), skip = snd (activeLimitSkip s)\<rparr>"
  using assms
  by (simp_all add: searchOptions_def lookupOptions_def activeLimitSkip_def readLimit_def
      readSkip_def Let_def split: option.splits)

lemma increaseSearchLimit_entry:
  assumes act: "active s = Some wallet" and own: "inherited s (wallet_id wallet) = None"
  shows "searchOptionsForWallets (increaseSearchLimit s) (wallet_id wallet) =
           Some \<lparr>limit = js_plus (fst (activeLimitSkip s)) (Number SEARCH_LIMIT_INCREASE),
                 skip = snd (activeLimitSkip s)\<rparr>"
proof -
  let ?id = "wallet_id wallet"
  let ?s1 = "snd (searchOptions s)"
  let ?v = "js_plus (fst (activeLimitSkip s)) (Number SEARCH_LIMIT_INCREASE)"
  let ?t = "writeLimit (Entry ?id) ?v ?s1"
  note obj = searchOptions_own(1) [OF act own] and entry = searchOptions_own(2) [OF act own]
  have t: "searchOptionsForWallets ?t =
      (searchOptionsForWallets ?s1)(?id \<mapsto> \<lparr>limit = ?v, skip = snd (activeLimitSkip s)\<rparr>)"
    using entry by (simp add: writeLimit_def)
  have found: "searchOptions ?t = (Some (Entry ?id), ?t)"
    by (rule searchOptions_found [where wallet = wallet])
       (simp_all add: act lookupOptions_def t)
  have "searchOptionsForWallets (refreshTransactionData ?t) = searchOptionsForWallets ?t"
    by (simp add: refreshTransactionData_def refreshLoop_entries found)
  moreover have "increaseSearchLimit s = refreshTransactionData ?t"
    using obj entry by (simp add: increaseSearchLimit_unfold readLimit_def)
  ultimately show ?thesis
    by (simp add: t)
qed

text \<open>No operation lowers the limit of an entry.\<close>

lemma grown_refl [simp]: "grown v v"
  by (cases v) (simp_all add: grown_def)

lemma grown_trans: "grown a b \<Longrightarrow> grown b c \<Longrightarrow> grown a c"
  by (cases a; cases b; cases c) (simp_all add: grown_def)

lemma grown_plus: "0 \<le> d \<Longrightarrow> grown v (js_plus v (Number d))"
  by (cases v) (simp_all add: grown_def)

lemma grown_not_less: "grown v v' \<Longrightarrow> \<not> js_less v' v"
  by (cases v; cases v') (simp_all add: grown_def)

lemma limits_le_refl [simp]: "limits_le s s"
  by (simp add: limits_le_def)

lemma limits_le_trans: "limits_le s t \<Longrightarrow> limits_le t u \<Longrightarrow> limits_le s u"
  unfolding limits_le_def by (meson grown_trans)

lemma limits_le_same:
  "searchOptionsForWallets t = searchOptionsForWallets s \<Longrightarrow> limits_le s t"
  by (simp add: limits_le_def)

lemma limits_le_searchOptions: "limits_le s (snd (searchOptions s))"
  by (auto simp: limits_le_def searchOptions_def lookupOptions_def Let_def split: option.splits)

lemma limits_le_cong:
  "searchOptionsForWallets t = searchOptionsForWallets u \<Longrightarrow> limits_le s t = limits_le s u"
  by (simp add: limits_le_def)

lemma limits_le_refreshTransactionData: "limits_le s (refreshTransactionData s)"
proof (cases "all_wallets s = []")
  case True
  then show ?thesis by (simp add: refreshTransactionData_def)
next
  case False
  then have "limits_le s (refreshTransactionData s) = limits_le s (snd (searchOptions s))"
    by (intro limits_le_cong) (simp add: refreshTransactionData_def refreshLoop_entries)
  then show ?thesis by (simp add: limits_le_searchOptions)
qed

lemma limits_le_writeLimit:
  "limits_le s (writeLimit obj (js_plus (readLimit s obj) (Number SEARCH_LIMIT_INCREASE)) s)"
  by (auto simp: limits_le_def writeLimit_def readLimit_def SEARCH_LIMIT_INCREASE_def
      grown_plus split: options_object.splits option.splits)

lemma limits_le_increaseSearchLimit: "limits_le s (increaseSearchLimit s)"
proof (cases "fst (searchOptions s)")
  case None
  then show ?thesis by (simp add: increaseSearchLimit_unfold limits_le_searchOptions)
next
  case (Some options)
  let ?s1 = "snd (searchOptions s)"
  let ?t = "writeLimit options (js_plus (readLimit ?s1 options) (Number SEARCH_LIMIT_INCREASE)) ?s1"
  have a: "limits_le s ?s1" by (rule limits_le_searchOptions)
  have b: "limits_le ?s1 ?t" by (rule limits_le_writeLimit)
  have c: "limits_le ?t (refreshTransactionData ?t)" by (rule limits_le_refreshTransactionData)
  from limits_le_trans [OF limits_le_trans [OF a b] c] show ?thesis
    using Some by (simp add: increaseSearchLimit_unfold)
qed


lemma makeBundle_frame [simp]:
  "searchOptionsForWallets (snd (makeBundle w s)) = searchOptionsForWallets s"
  "active (snd (makeBundle w s)) = active s"
  "all_wallets (snd (makeBundle w s)) = all_wallets s"
  "events (snd (makeBundle w s)) = events s"
  "transactionsRequests (snd (makeBundle w s)) = transactionsRequests s"
  by (simp_all add: makeBundle_def Let_def split_beta)

lemma mapBundles_frame [simp]:
  "searchOptionsForWallets (snd (mapBundles ws s)) = searchOptionsForWallets s"
  "active (snd (mapBundles ws s)) = active s"
  "all_wallets (snd (mapBundles ws s)) = all_wallets s"
  "events (snd (mapBundles ws s)) = events s"
  "transactionsRequests (snd (mapBundles ws s)) = transactionsRequests s"
  by (induction ws arbitrary: s) (simp_all add: Let_def split_beta)

lemma limits_le_updateObservedWallets: "limits_le s (updateObservedWallets ws s)"
proof -
  have "limits_le s (snd (mapBundles ws s)\<lparr>transactionsRequests := fst (mapBundles ws s)\<rparr>)"
    by (rule limits_le_same) simp
  then show ?thesis
    unfolding updateObservedWallets_def split_beta Let_def
    by (rule limits_le_trans) (rule limits_le_refreshTransactionData)
qed

lemma limits_le_perform: "limits_le s (perform x s)"
proof (cases x)
  case LoadMoreTransactions
  then show ?thesis by (simp add: limits_le_increaseSearchLimit)
next
  case (ExportTransactionsToFile params fetched)
  then show ?thesis
    by (intro limits_le_same) (simp add: export_defs split: settled.splits option.splits)
next
  case CloseExportTransactionDialog
  then show ?thesis
    by (intro limits_le_same)
       (simp add: closeExportTransactionDialog_def setExporting_def setExportError_def)
next
  case (UpdateObservedWallets ws)
  then show ?thesis by (simp add: limits_le_updateObservedWallets)
next
  case ReadSearchOptions
  then show ?thesis by (simp add: limits_le_searchOptions)
next
  case (RefreshChainPending wallet)
  then show ?thesis
    by (intro limits_le_same) (simp add: refreshChainPending_def split_beta)
next
  case (RefreshChainBalance wallet d)
  then show ?thesis
    by (intro limits_le_same) (simp add: refreshChainBalance_def split_beta)
next
  case (RefreshChainUpdateBalance wallet b)
  then show ?thesis
    by (intro limits_le_same) (simp add: refreshChainUpdateBalance_def split: option.splits)
next
  case (ExportTimerFired respTxRows exported)
  then show ?thesis
    by (intro limits_le_same)
       (simp add: exportTimerCallback_def setExporting_def Let_def split: settled.splits)
next
  case (SetActiveWallet a)
  then show ?thesis by (intro limits_le_same) simp
next
  case (SetAllWallets ws)
  then show ?thesis by (intro limits_le_same) simp
qed

lemma limits_le_performAll: "limits_le s (performAll xs s)"
proof (induction xs arbitrary: s)
  case Nil
  show ?case by simp
next
  case (Cons x xs)
  have "limits_le s (perform x s)" by (rule limits_le_perform)
  moreover have "limits_le (perform x s) (performAll xs (perform x s))" by (rule Cons.IH)
  ultimately show ?case by (simp add: limits_le_trans)
qed

lemma entry_limit_never_decreases:
  assumes "searchOptionsForWallets s w = Some options"
  shows "\<exists>options'. searchOptionsForWallets (performAll xs s) w = Some options'
           \<and> \<not> js_less (limit options') (limit options)"
proof -
  from limits_le_performAll [of s xs] assms
  obtain options' where "searchOptionsForWallets (performAll xs s) w = Some options'"
    and "grown (limit options) (limit options')"
    unfolding limits_le_def by blast
  then show ?thesis by (auto dest: grown_not_less)
qed

subsection \<open>Claim C6: the search limit after loadMoreTransactions\<close>

text \<open>
  C6 says that every call of \<open>loadMoreTransactions\<close> changes the active wallet's search
  limit by exactly \<open>SEARCH_LIMIT_INCREASE\<close>.  In the store below the active wallet has the id
  \<open>constructor\<close>.  The read \<open>_searchOptionsForWallets['constructor']\<close> finds the function
  every object inherits under that name, so the getter neither finds nor creates search
  options for the wallet: the limit read through it is \<open>undefined\<close>, the call turns it into
  \<open>NaN\<close>, no entry for the wallet exists afterwards, and the refresh is executed with limit
  \<open>NaN\<close> and skip \<open>undefined\<close>.
\<close>

theorem loadMoreTransactions_on_constructor:
  "activeLimitSkip constructor_store = (Undefined, Undefined)
   \<and> activeLimitSkip (increaseSearchLimit constructor_store) = (NaN, Undefined)
   \<and> searchOptionsForWallets (increaseSearchLimit constructor_store) ''constructor'' = None
   \<and> recentExecutions (events (increaseSearchLimit constructor_store))
        = [(''constructor'', NaN, Undefined)]"
proof -
  have act: "active constructor_store = Some (Wallet ''constructor'')"
    and all: "all_wallets constructor_store = [Wallet ''constructor'']"
    and ev: "events constructor_store = []"
    and none: "searchOptionsForWallets constructor_store = Map.empty"
    and inh: "inherited constructor_store ''constructor'' = Some 2"
    and ml: "memberLimit constructor_store = Map.empty"
    and ms: "memberSkip constructor_store = Map.empty"
    and pr: "prototypes constructor_store 2 = [1, 0]"
    by (simp_all add: constructor_store_def initial_store_def Object_prototype_members_def
        standard_prototypes_def)
  have look: "lookupOptions constructor_store ''constructor'' = Some (Member 2)"
    by (simp add: lookupOptions_def none inh)
  have so: "searchOptions constructor_store = (Some (Member 2), constructor_store)"
    using act look by (simp add: searchOptions_found)
  have before: "activeLimitSkip constructor_store = (Undefined, Undefined)"
    by (simp add: activeLimitSkip_def act look readLimit_def readSkip_def ml ms pr)
  let ?t = "writeLimit (Member 2) NaN constructor_store"
  have inc: "increaseSearchLimit constructor_store = refreshTransactionData ?t"
    by (simp add: increaseSearchLimit_unfold so readLimit_def ml pr)
  have t_pair: "activeLimitSkip ?t = (NaN, Undefined)"
    by (simp add: activeLimitSkip_def act lookupOptions_def none inh readLimit_def readSkip_def
        writeLimit_def ms pr)
  have after: "activeLimitSkip (increaseSearchLimit constructor_store) = (NaN, Undefined)"
    by (simp add: inc t_pair)
  have t_so: "searchOptions ?t = (Some (Member 2), ?t)"
    by (rule searchOptions_found [where wallet = "Wallet ''constructor''"])
       (simp_all add: act lookupOptions_def writeLimit_def none inh)
  have t_none: "searchOptionsForWallets ?t = Map.empty"
    by (simp add: writeLimit_def none)
  have "searchOptionsForWallets (refreshTransactionData ?t) = searchOptionsForWallets ?t"
    by (simp add: refreshTransactionData_def refreshLoop_entries t_so)
  then have entries:
    "searchOptionsForWallets (increaseSearchLimit constructor_store) ''constructor'' = None"
    by (simp add: inc t_none)
  have execs: "recentExecutions (events (increaseSearchLimit constructor_store))
      = [(''constructor'', NaN, Undefined)]"
    unfolding inc refreshTransactionData_def refreshLoop_recentExecutions
    by (simp add: t_pair all ev)
  from before after entries execs show ?thesis by blast
qed

subsection \<open>Request objects and the heap\<close>

lemma find_bundle_heap [simp]: "find_bundle w (s\<lparr>heap := h\<rparr>) = find_bundle w s"
  by (simp add: find_bundle_def)

lemma makeBundle_found:
  "find_bundle w s = Some b \<Longrightarrow>
     makeBundle w s =
       (\<lparr>walletId = w, pendingRequest = pendingRequest b, recentRequest = recentRequest b,
         allRequest = allRequest b, getBalanceRequest = getBalanceRequest b\<rparr>, s)"
  by (simp add: makeBundle_def getTransactionsRecentRequest_def getTransactionsAllRequest_def
      getBalanceRequest'_def getTransactionsPendingRequest_def)

lemma makeBundle_new:
  "find_bundle w s = None \<Longrightarrow>
     makeBundle w s =
       (\<lparr>walletId = w, pendingRequest = length (heap s) + 3, recentRequest = length (heap s),
         allRequest = length (heap s) + 1, getBalanceRequest = length (heap s) + 2\<rparr>,
        s\<lparr>heap := heap s @ [refreshTransactions, refreshTransactions, getBalance,
                             refreshPendingTransactions]\<rparr>)"
  by (simp add: makeBundle_def getTransactionsRecentRequest_def getTransactionsAllRequest_def
      getBalanceRequest'_def getTransactionsPendingRequest_def new_CachedRequest_def)

lemma makeBundle_heap: "length (heap s) \<le> length (heap (snd (makeBundle w s)))"
  by (cases "find_bundle w s") (simp_all add: makeBundle_found makeBundle_new)

lemma mapBundles_heap: "length (heap s) \<le> length (heap (snd (mapBundles ws s)))"
proof (induction ws arbitrary: s)
  case Nil
  show ?case by simp
next
  case (Cons w ws)
  have "length (heap s) \<le> length (heap (snd (makeBundle w s)))" by (rule makeBundle_heap)
  also have "\<dots> \<le> length (heap (snd (mapBundles ws (snd (makeBundle w s)))))" by (rule Cons.IH)
  finally show ?case by (simp add: split_beta)
qed

lemma retained_or_new_mono:
  "retained_or_new s lo hi b \<Longrightarrow> lo' \<le> lo \<Longrightarrow> hi \<le> hi' \<Longrightarrow> retained_or_new s lo' hi' b"
  by (auto simp: retained_or_new_def bundle_requests_def split: option.splits)

lemma retained_or_new_cong:
  "transactionsRequests t = transactionsRequests s
     \<Longrightarrow> retained_or_new t lo hi b = retained_or_new s lo hi b"
  by (simp add: retained_or_new_def find_bundle_def)

lemma makeBundle_retained_or_new:
  "retained_or_new s (length (heap s)) (length (heap (snd (makeBundle w s))))
     (fst (makeBundle w s))"
  by (cases "find_bundle w s")
     (simp_all add: makeBundle_found makeBundle_new retained_or_new_def bundle_requests_def)

lemma mapBundles_retained_or_new:
  "list_all (retained_or_new s (length (heap s)) (length (heap (snd (mapBundles ws s)))))
     (fst (mapBundles ws s))"
proof (induction ws arbitrary: s)
  case Nil
  show ?case by simp
next
  case (Cons w ws)
  let ?s1 = "snd (makeBundle w s)"
  let ?s2 = "snd (mapBundles ws ?s1)"
  have h1: "length (heap s) \<le> length (heap ?s1)" by (rule makeBundle_heap)
  have h2: "length (heap ?s1) \<le> length (heap ?s2)" by (rule mapBundles_heap)
  have first: "retained_or_new s (length (heap s)) (length (heap ?s2)) (fst (makeBundle w s))"
    by (rule retained_or_new_mono [OF makeBundle_retained_or_new]) (simp_all add: h2)
  have "list_all (retained_or_new ?s1 (length (heap ?s1)) (length (heap ?s2)))
          (fst (mapBundles ws ?s1))"
    by (rule Cons.IH)
  then have rest: "list_all (retained_or_new s (length (heap s)) (length (heap ?s2)))
          (fst (mapBundles ws ?s1))"
    unfolding list_all_iff
    using h1 by (auto simp: retained_or_new_cong [of ?s1 s] intro: retained_or_new_mono)
  from first rest show ?case by (simp add: split_beta)
qed


lemma getRequest_heap:
  "length (heap s) \<le> length (heap (snd (getTransactionsRecentRequest w s)))"
  "length (heap s) \<le> length (heap (snd (getTransactionsAllRequest w s)))"
  "length (heap s) \<le> length (heap (snd (getTransactionsPendingRequest w s)))"
  "length (heap s) \<le> length (heap (snd (getBalanceRequest' w s)))"
  by (simp_all add: getTransactionsRecentRequest_def getTransactionsAllRequest_def
      getTransactionsPendingRequest_def getBalanceRequest'_def new_CachedRequest_def
      split: option.splits)

lemma refreshWallet_heap: "length (heap s) \<le> length (heap (refreshWallet wallet s))"
proof -
  let ?s2 = "snd (searchOptions (snd (searchOptions s)))"
  let ?id = "wallet_id wallet"
  obtain e1 e2 e3 e4 where shape: "refreshWallet wallet s =
      emit e4 (emit e3 (snd (getTransactionsAllRequest ?id
        (emit e2 (emit e1 (snd (getTransactionsRecentRequest ?id ?s2)))))))"
    by (simp add: refreshWallet_def Let_def split_beta)
  let ?s3 = "snd (getTransactionsRecentRequest ?id ?s2)"
  let ?s5 = "emit e2 (emit e1 ?s3)"
  have "length (heap s) = length (heap ?s2)" by simp
  also have "\<dots> \<le> length (heap ?s3)" by (rule getRequest_heap)
  also have "\<dots> = length (heap ?s5)" by simp
  also have "\<dots> \<le> length (heap (snd (getTransactionsAllRequest ?id ?s5)))"
    by (rule getRequest_heap)
  also have "\<dots> = length (heap (refreshWallet wallet s))"
    by (simp add: shape)
  finally show ?thesis .
qed

lemma refreshLoop_heap: "length (heap s) \<le> length (heap (refreshLoop ws s))"
proof (induction ws arbitrary: s)
  case Nil
  show ?case by simp
next
  case (Cons w ws)
  have "length (heap s) \<le> length (heap (refreshWallet w s))" by (rule refreshWallet_heap)
  also have "\<dots> \<le> length (heap (refreshLoop ws (refreshWallet w s)))" by (rule Cons.IH)
  finally show ?case by simp
qed

lemma refreshTransactionData_heap:
  "length (heap s) \<le> length (heap (refreshTransactionData s))"
  by (simp add: refreshTransactionData_def refreshLoop_heap)

lemma updateObservedWallets_heap:
  "length (heap (snd (mapBundles ws s))) \<le> length (heap (updateObservedWallets ws s))"
proof -
  have "length (heap (snd (mapBundles ws s)))
          = length (heap (snd (mapBundles ws s)\<lparr>transactionsRequests := fst (mapBundles ws s)\<rparr>))"
    by simp
  also have "\<dots> \<le> length (heap (updateObservedWallets ws s))"
    unfolding updateObservedWallets_def split_beta Let_def by (rule refreshTransactionData_heap)
  finally show ?thesis .
qed

lemma retained_or_new_fresh:
  assumes "allocated s" and "retained_or_new s (length (heap s)) hi b'"
    and "find_bundle (walletId b') s = None"
  shows "set (bundle_requests b') \<inter> held_requests s = {}"
proof -
  have new: "\<forall>r \<in> set (bundle_requests b'). length (heap s) \<le> r"
    using assms(2,3) by (simp add: retained_or_new_def list_all_iff)
  have old: "\<forall>r \<in> held_requests s. r < length (heap s)"
    using assms(1) by (auto simp: allocated_def held_requests_def list_all_iff)
  from new old show ?thesis by fastforce
qed

lemma updateObservedWallets_retained_or_new:
  "list_all
     (retained_or_new s (length (heap s)) (length (heap (updateObservedWallets W s))))
     (transactionsRequests (updateObservedWallets W s))"
proof -
  have "list_all (retained_or_new s (length (heap s)) (length (heap (snd (mapBundles W s)))))
          (fst (mapBundles W s))"
    by (rule mapBundles_retained_or_new)
  then show ?thesis
    unfolding list_all_iff updateObservedWallets_transactionsRequests
    using updateObservedWallets_heap [of W s] by (auto intro: retained_or_new_mono)
qed

subsection \<open>Claim C5: the request objects of the new bundles\<close>

text \<open>
  C5, as amended.  After \<open>updateObservedWallets W\<close> there is one bundle for each element of
  \<open>W\<close>, in order.  A bundle for an id that was tracked before the call holds the four
  request objects of the first bundle that had this id: they are retained, not replaced.  A
  bundle for an id that was not tracked holds four distinct request objects constructed
  during the call, none of which is held by a bundle that existed before it.
\<close>

theorem updateObservedWallets_requests:
  "map walletId (transactionsRequests (updateObservedWallets W s)) = W
   \<and> list_all
       (retained_or_new s (length (heap s)) (length (heap (updateObservedWallets W s))))
       (transactionsRequests (updateObservedWallets W s))
   \<and> (allocated s \<longrightarrow>
        (\<forall>b' \<in> set (transactionsRequests (updateObservedWallets W s)).
           find_bundle (walletId b') s = None \<longrightarrow>
             set (bundle_requests b') \<inter> held_requests s = {}))"
proof -
  let ?s' = "updateObservedWallets W s"
  have ids: "map walletId (transactionsRequests ?s') = W"
    by (simp add: updateObservedWallets_transactionsRequests mapBundles_walletIds)
  have ron: "list_all (retained_or_new s (length (heap s)) (length (heap ?s')))
          (transactionsRequests ?s')"
    by (rule updateObservedWallets_retained_or_new)
  have "set (bundle_requests b') \<inter> held_requests s = {}"
    if "allocated s" "b' \<in> set (transactionsRequests ?s')" "find_bundle (walletId b') s = None"
    for b'
  proof -
    from ron that(2)
    have "retained_or_new s (length (heap s)) (length (heap ?s')) b'"
      by (simp add: list_all_iff)
    with that(1) show ?thesis using that(3) by (rule retained_or_new_fresh)
  qed
  with ids ron show ?thesis by blast
qed


lemma tracking_a_store_bundles:
  "transactionsRequests tracking_a_store =
     [\<lparr>walletId = ''a'', pendingRequest = 3, recentRequest = 0, allRequest = 1,
       getBalanceRequest = 2\<rparr>]"
  by (simp add: tracking_a_store_def two_wallet_store_def initial_store_def
      updateObservedWallets_transactionsRequests makeBundle_new find_bundle_def)

lemma tracking_a_store_heap: "length (heap tracking_a_store) = 6"
  by (simp add: tracking_a_store_def two_wallet_store_def initial_store_def
      updateObservedWallets_def makeBundle_new find_bundle_def refreshTransactionData_def
      refreshWallet_def searchOptions_def lookupOptions_def Object_prototype_members_def
      getTransactionsRecentRequest_def getTransactionsAllRequest_def new_CachedRequest_def
      emit_def Let_def)

text \<open>
  C5 as stated says that no request object of an earlier bundle is retained, also for ids
  already tracked.  The store below tracks \<open>a\<close> with the request objects 0 to 3; observing
  \<open>a\<close> again leaves the same four objects in its bundle.
\<close>

theorem updateObservedWallets_keeps_tracked_requests:
  "bundle_requests (hd (transactionsRequests tracking_a_store)) = [0, 1, 2, 3]
   \<and> transactionsRequests (updateObservedWallets [''a''] tracking_a_store) =
       [\<lparr>walletId = ''a'', pendingRequest = 3, recentRequest = 0, allRequest = 1,
         getBalanceRequest = 2\<rparr>]"
  by (simp add: updateObservedWallets_transactionsRequests makeBundle_found find_bundle_def
      tracking_a_store_bundles bundle_requests_def)

theorem updateObservedWallets_requests_witness:
  "allocated tracking_a_store
   \<and> transactionsRequests (updateObservedWallets [''a'', ''c''] tracking_a_store) =
       [\<lparr>walletId = ''a'', pendingRequest = 3, recentRequest = 0, allRequest = 1,
         getBalanceRequest = 2\<rparr>,
        \<lparr>walletId = ''c'', pendingRequest = 9, recentRequest = 6, allRequest = 7,
         getBalanceRequest = 8\<rparr>]
   \<and> find_bundle ''c'' tracking_a_store = None
   \<and> {6, 7, 8, 9} \<inter> held_requests tracking_a_store = {}"
proof -
  let ?c = "\<lparr>walletId = ''c'', pendingRequest = 9, recentRequest = 6, allRequest = 7,
         getBalanceRequest = 8\<rparr>"
  have al: "allocated tracking_a_store"
    by (simp add: allocated_def tracking_a_store_bundles tracking_a_store_heap
        bundle_requests_def)
  have bs: "transactionsRequests (updateObservedWallets [''a'', ''c''] tracking_a_store) =
       [\<lparr>walletId = ''a'', pendingRequest = 3, recentRequest = 0, allRequest = 1,
         getBalanceRequest = 2\<rparr>, ?c]"
    by (simp add: updateObservedWallets_transactionsRequests makeBundle_found makeBundle_new
        find_bundle_def tracking_a_store_bundles tracking_a_store_heap)
  have nf: "find_bundle ''c'' tracking_a_store = None"
    by (simp add: find_bundle_def tracking_a_store_bundles)
  from updateObservedWallets_requests [of "[''a'', ''c'']" tracking_a_store] al
  have "\<forall>b' \<in> set (transactionsRequests (updateObservedWallets [''a'', ''c''] tracking_a_store)).
           find_bundle (walletId b') tracking_a_store = None \<longrightarrow>
             set (bundle_requests b') \<inter> held_requests tracking_a_store = {}"
    by blast
  then have "find_bundle (walletId ?c) tracking_a_store = None \<longrightarrow>
             set (bundle_requests ?c) \<inter> held_requests tracking_a_store = {}"
    unfolding bs by simp
  with nf have "{6, 7, 8, 9} \<inter> held_requests tracking_a_store = {}"
    by (simp add: bundle_requests_def)
  with al bs nf show ?thesis by blast
qed

text \<open>\<open>allocated\<close> holds initially and is kept by every operation.\<close>

lemma allocated_frame:
  "transactionsRequests t = transactionsRequests s \<Longrightarrow> length (heap s) \<le> length (heap t)
     \<Longrightarrow> allocated s \<Longrightarrow> allocated t"
  by (fastforce simp: allocated_def list_all_iff)

lemma find_bundle_member: "find_bundle w s = Some b \<Longrightarrow> b \<in> set (transactionsRequests s)"
  by (auto simp: find_bundle_def find_Some_iff)

lemma allocated_updateObservedWallets:
  assumes "allocated s"
  shows "allocated (updateObservedWallets W s)"
proof -
  let ?s' = "updateObservedWallets W s"
  have ron: "list_all (retained_or_new s (length (heap s)) (length (heap ?s')))
          (transactionsRequests ?s')"
    by (rule updateObservedWallets_retained_or_new)
  have le: "length (heap s) \<le> length (heap ?s')"
    using mapBundles_heap [of s W] updateObservedWallets_heap [of W s] by simp
  have "list_all (\<lambda>r. r < length (heap ?s')) (bundle_requests b')"
    if "b' \<in> set (transactionsRequests ?s')" for b'
  proof (cases "find_bundle (walletId b') s")
    case None
    with ron that show ?thesis
      by (auto simp: list_all_iff retained_or_new_def)
  next
    case (Some b)
    with ron that have eq: "bundle_requests b' = bundle_requests b"
      by (auto simp: list_all_iff retained_or_new_def)
    from Some have "b \<in> set (transactionsRequests s)" by (rule find_bundle_member)
    with assms have "list_all (\<lambda>r. r < length (heap s)) (bundle_requests b)"
      by (simp add: allocated_def list_all_iff)
    with le show ?thesis unfolding eq list_all_iff by fastforce
  qed
  then show ?thesis by (simp add: allocated_def list_all_iff)
qed

lemma increaseSearchLimit_heap: "length (heap s) \<le> length (heap (increaseSearchLimit s))"
proof (cases "fst (searchOptions s)")
  case None
  then show ?thesis by (simp add: increaseSearchLimit_unfold)
next
  case (Some options)
  let ?t = "writeLimit options
      (js_plus (readLimit (snd (searchOptions s)) options) (Number SEARCH_LIMIT_INCREASE))
      (snd (searchOptions s))"
  have "length (heap s) = length (heap ?t)" by simp
  also have "\<dots> \<le> length (heap (refreshTransactionData ?t))"
    by (rule refreshTransactionData_heap)
  finally show ?thesis using Some by (simp add: increaseSearchLimit_unfold)
qed

lemma allocated_perform: "allocated s \<Longrightarrow> allocated (perform x s)"
proof (cases x)
  case LoadMoreTransactions
  assume "allocated s"
  then show ?thesis
    unfolding LoadMoreTransactions perform.simps
    by (rule allocated_frame [rotated 2]) (simp_all add: increaseSearchLimit_heap)
next
  case (ExportTransactionsToFile params fetched)
  assume "allocated s"
  then show ?thesis
    unfolding ExportTransactionsToFile perform.simps
    by (rule allocated_frame [rotated 2])
       (simp_all add: export_defs split: settled.splits option.splits)
next
  case CloseExportTransactionDialog
  assume "allocated s"
  then show ?thesis
    unfolding CloseExportTransactionDialog perform.simps
    by (rule allocated_frame [rotated 2])
       (simp_all add: closeExportTransactionDialog_def setExporting_def setExportError_def)
next
  case (UpdateObservedWallets ws)
  assume "allocated s"
  then show ?thesis
    unfolding UpdateObservedWallets perform.simps by (rule allocated_updateObservedWallets)
next
  case ReadSearchOptions
  assume "allocated s"
  then show ?thesis
    unfolding ReadSearchOptions perform.simps by (rule allocated_frame [rotated 2]) simp_all
next
  case (RefreshChainPending wallet)
  assume "allocated s"
  then show ?thesis
    unfolding RefreshChainPending perform.simps
    by (rule allocated_frame [rotated 2])
       (simp_all add: refreshChainPending_def split_beta getRequest_heap)
next
  case (RefreshChainBalance wallet d)
  assume "allocated s"
  then show ?thesis
    unfolding RefreshChainBalance perform.simps
    by (rule allocated_frame [rotated 2])
       (simp_all add: refreshChainBalance_def split_beta getRequest_heap)
next
  case (RefreshChainUpdateBalance wallet b)
  assume "allocated s"
  then show ?thesis
    unfolding RefreshChainUpdateBalance perform.simps
    by (rule allocated_frame [rotated 2])
       (simp_all add: refreshChainUpdateBalance_def split: option.splits)
next
  case (ExportTimerFired respTxRows exported)
  assume "allocated s"
  then show ?thesis
    unfolding ExportTimerFired perform.simps
    by (rule allocated_frame [rotated 2])
       (simp_all add: exportTimerCallback_def setExporting_def Let_def split: settled.splits)
next
  case (SetActiveWallet a)
  assume "allocated s"
  then show ?thesis
    unfolding SetActiveWallet perform.simps by (rule allocated_frame [rotated 2]) simp_all
next
  case (SetAllWallets ws)
  assume "allocated s"
  then show ?thesis
    unfolding SetAllWallets perform.simps by (rule allocated_frame [rotated 2]) simp_all
qed

lemma allocated_performAll: "allocated s \<Longrightarrow> allocated (performAll xs s)"
  by (induction xs arbitrary: s) (simp_all add: allocated_perform)

lemma allocated_reachable: "allocated (performAll xs initial_store)"
  by (rule allocated_performAll) (simp add: allocated_def initial_store_def)

section \<open>Properties of the settings store\<close>

subsection \<open>Claim C4: the redirect to the language selection\<close>

text \<open>
  C4, as amended.  The reaction triggers the route change to the language selection if and
  only if the application is not loading (\<open>stores.loading.isLoading\<close> is false), the locale
  read has completed (\<open>wasExecuted\<close>, result not \<open>null\<close>) and the locale is unset (the
  result is the empty string).  In every other state it changes nothing; in particular it
  does not fire while the locale read is pending.
\<close>

theorem redirect_fires_iff:
  "(routes (redirectToLanguageSelectionIfNoLocaleSet s) = routes s @ [LANGUAGE_SELECTION]) =
     (\<not> isLoading s \<and> wasExecuted (getProfileLocaleRequest s)
      \<and> result (getProfileLocaleRequest s) = Some '''')
   \<and> (\<not> (\<not> isLoading s \<and> wasExecuted (getProfileLocaleRequest s)
          \<and> result (getProfileLocaleRequest s) = Some '''')
        \<longrightarrow> redirectToLanguageSelectionIfNoLocaleSet s = s)
   \<and> (\<not> wasExecuted (getProfileLocaleRequest s) \<or> result (getProfileLocaleRequest s) = None
        \<longrightarrow> redirectToLanguageSelectionIfNoLocaleSet s = s)"
  by (auto simp: redirectToLanguageSelectionIfNoLocaleSet_def hasLoadedCurrentLocale_def
      isCurrentLocaleSet_def)

theorem redirect_fires_iff_witness:
  "\<not> wasExecuted (getProfileLocaleRequest initial_settings)
   \<and> redirectToLanguageSelectionIfNoLocaleSet initial_settings = initial_settings
   \<and> routes (redirectToLanguageSelectionIfNoLocaleSet loaded_unset_settings) = [LANGUAGE_SELECTION]"
  using redirect_fires_iff [of initial_settings] redirect_fires_iff [of loaded_unset_settings]
  by (simp add: initial_settings_def initial_request_def loaded_unset_settings_def
      loading_unset_settings_def)

text \<open>
  C4 as stated leaves out the \<open>isLoading\<close> guard: in the state below the locale read has
  completed and the locale is unset, and the reaction does not fire.
\<close>

theorem redirect_not_fired_while_loading:
  "wasExecuted (getProfileLocaleRequest loading_unset_settings)
   \<and> result (getProfileLocaleRequest loading_unset_settings) \<noteq> None
   \<and> result (getProfileLocaleRequest loading_unset_settings) = Some ''''
   \<and> routes (redirectToLanguageSelectionIfNoLocaleSet loading_unset_settings) = []"
  by (simp add: redirectToLanguageSelectionIfNoLocaleSet_def loading_unset_settings_def
      initial_settings_def)

subsection \<open>Claim C7: defaults of currentLocale and currentTheme\<close>

text \<open>
  C7.  When the cached result of the locale get-request is \<open>null\<close> or the empty string,
  \<open>currentLocale\<close> is \<open>en-US\<close>; when the cached result of the theme get-request is
  \<open>null\<close> or the empty string, \<open>currentTheme\<close> is \<open>THEMES.YOROI_CLASSIC\<close>.
\<close>

theorem computed_defaults:
  "(result (getProfileLocaleRequest s) = None \<or> result (getProfileLocaleRequest s) = Some ''''
      \<longrightarrow> fst (currentLocale s) = Some ''en-US'')
   \<and> (result (getThemeRequest s) = None \<or> result (getThemeRequest s) = Some ''''
      \<longrightarrow> fst (currentTheme YOROI_CLASSIC s) = Some YOROI_CLASSIC)"
  by (auto simp: currentLocale_def currentTheme_def isCurrentLocaleSet_def isCurrentThemeSet_def
      execute_def Let_def)

theorem computed_defaults_witness:
  "result (getProfileLocaleRequest initial_settings) = None
   \<and> result (getThemeRequest initial_settings) = None
   \<and> fst (currentLocale initial_settings) = Some ''en-US''
   \<and> fst (currentTheme ''YoroiClassic'' initial_settings) = Some ''YoroiClassic''
   \<and> result (getProfileLocaleRequest loaded_unset_settings) = Some ''''
   \<and> fst (currentLocale loaded_unset_settings) = Some ''en-US''"
  using computed_defaults [of initial_settings "''YoroiClassic''"]
    computed_defaults [of loaded_unset_settings "''YoroiClassic''"]
  by (simp add: initial_settings_def initial_request_def loaded_unset_settings_def
      loading_unset_settings_def)

subsection \<open>Claim C10: currentThemeVars on a null custom theme\<close>

text \<open>
  C10.  When the cached result of the custom-theme get-request is \<open>null\<close>,
  \<open>currentThemeVars\<close> is \<open>JSON.parse(null)\<close>, which is \<open>null\<close> for a parser that reads
  the text \<open>null\<close> as \<open>null\<close>; it is a prebuilt theme module exactly when the cached result
  is the empty string.
\<close>

theorem currentThemeVars_null:
  "(result (getCustomThemeRequest s) = None
      \<longrightarrow> fst (currentThemeVars parse YOROI_CLASSIC s) = JSON_parse parse None
        \<and> (parse ''null'' = Some JNull
             \<longrightarrow> fst (currentThemeVars parse YOROI_CLASSIC s) = Parsed JNull))
   \<and> ((\<exists>p. fst (currentThemeVars parse YOROI_CLASSIC s) = Prebuilt p)
        = (result (getCustomThemeRequest s) = Some ''''))"
  by (auto simp: currentThemeVars_def JSON_parse_def getThemeVars_def execute_def Let_def
      split_beta split: option.splits)

theorem currentThemeVars_null_witness:
  "result (getCustomThemeRequest initial_settings) = None
   \<and> parse_literal ''null'' = Some JNull
   \<and> fst (currentThemeVars parse_literal ''YoroiClassic'' initial_settings) = Parsed JNull"
proof -
  have r: "result (getCustomThemeRequest initial_settings) = None"
    by (simp add: initial_settings_def initial_request_def)
  have p: "parse_literal ''null'' = Some JNull"
    by (simp add: parse_literal_def)
  from currentThemeVars_null [of initial_settings parse_literal "''YoroiClassic''"] r p
  have "fst (currentThemeVars parse_literal ''YoroiClassic'' initial_settings) = Parsed JNull"
    by blast
  with r p show ?thesis by simp
qed

end
